theory Spec2Isabelle
  imports Main
begin

section \<open>Go errors\<close>

text \<open>
  A Go \<open>error\<close> is an interface value that may be \<open>nil\<close>: a possibly-nil error is an
  \<open>error option\<close> (\<open>None\<close> is \<open>nil\<close>). The constructors are the error values the program
  meets: the sentinels \<open>context.Canceled\<close>, \<open>context.DeadlineExceeded\<close> and
  \<open>playwright.ErrTimeout\<close>, the value of \<open>errors.New\<close> or of \<open>fmt.Errorf\<close> without
  \<open>%w\<close> (a message), the value of \<open>fmt.Errorf\<close> with \<open>%w\<close> (a message and the error it
  unwraps to) and the value of \<open>errors.Join\<close> (the joined errors).
\<close>

datatype error =
    Canceled
  | DeadlineExceeded
  | ErrTimeout
  | ErrorString string
  | WrapError string error
  | JoinError "error list"

text \<open>\<open>errors.Is(err, target)\<close>: \<open>err\<close> is \<open>target\<close>, or an error of its chain is.\<close>

fun errors_Is :: "error \<Rightarrow> error \<Rightarrow> bool" where
  "errors_Is (WrapError msg e) target = (WrapError msg e = target \<or> errors_Is e target)"
| "errors_Is (JoinError es) target =
     (JoinError es = target \<or> list_ex (\<lambda>e. errors_Is e target) es)"
| "errors_Is err target = (err = target)"

text \<open>
  \<open>errors.Join(errs...)\<close> on errors that are all non-nil: \<open>nil\<close> when there is none,
  otherwise the error that joins them.
\<close>

definition errors_Join :: "error list \<Rightarrow> error option" where
  "errors_Join errs = (if errs = [] then None else Some (JoinError errs))"

section \<open>Credentials (package credentials, package config)\<close>

record AccountPlain =
  Username :: string
  Password :: string

record Account =
  Plain :: "AccountPlain option"

record Credentials =
  Username :: string
  Password :: string

text \<open>
  \<open>ResolveCredentials\<close> returns a pointer and an error, each of which may be \<open>nil\<close>.
  The context argument is not used by the function. Both structs have the fields
  \<open>Username\<close> and \<open>Password\<close>: those of \<open>config.AccountPlain\<close> are written with the
  record's name.
\<close>

definition ResolveCredentials :: "'ctx \<Rightarrow> Account \<Rightarrow> Credentials option \<times> error option" where
  "ResolveCredentials ctx account =
     (case Plain account of
        Some plain \<Rightarrow>
          (Some \<lparr>Username = AccountPlain.Username plain,
                 Password = AccountPlain.Password plain\<rparr>, None)
      | None \<Rightarrow> (None, Some (ErrorString ''no credentials specified'')))"

section \<open>TimeParseAny\<close>

text \<open>
  A \<open>time.Time\<close> is an instant; \<open>Time 0\<close> stands for the zero value \<open>time.Time{}\<close>.
  \<open>time.Parse\<close> belongs to the Go library: it is a parameter \<open>parse\<close> that, given a
  format and a value, returns a time and a possibly-nil error.
\<close>

datatype Time = Time int

definition Time_zero :: Time where
  "Time_zero = Time 0"

text \<open>The loop of \<open>TimeParseAny\<close>, with the slice \<open>errs\<close> as accumulator.\<close>

fun TimeParseAny_loop ::
  "(string \<Rightarrow> string \<Rightarrow> Time \<times> error option) \<Rightarrow> error list \<Rightarrow> string list \<Rightarrow> string
     \<Rightarrow> Time \<times> error option" where
  "TimeParseAny_loop parse errs [] v = (Time_zero, errors_Join errs)"
| "TimeParseAny_loop parse errs (format # formats) v =
     (case parse format v of
        (date, Some err) \<Rightarrow> TimeParseAny_loop parse (errs @ [err]) formats v
      | (date, None) \<Rightarrow> (date, None))"

definition TimeParseAny ::
  "(string \<Rightarrow> string \<Rightarrow> Time \<times> error option) \<Rightarrow> string list \<Rightarrow> string \<Rightarrow> Time \<times> error option" where
  "TimeParseAny parse formats v = TimeParseAny_loop parse [] formats v"

section \<open>Error messages\<close>

text \<open>\<open>strings.Join(elems, sep)\<close>.\<close>

fun strings_Join :: "string list \<Rightarrow> string \<Rightarrow> string" where
  "strings_Join [] sep = []"
| "strings_Join [x] sep = x"
| "strings_Join (x # y # ys) sep = x @ sep @ strings_Join (y # ys) sep"

text \<open>
  \<open>err.Error()\<close>: the message of an error. A wrapping error carries the message that
  \<open>fmt.Errorf\<close> formatted; a joined error gives its errors' messages, one on each line.
\<close>

fun Error :: "error \<Rightarrow> string" where
  "Error Canceled = ''context canceled''"
| "Error DeadlineExceeded = ''context deadline exceeded''"
| "Error ErrTimeout = ''timeout''"
| "Error (ErrorString s) = s"
| "Error (WrapError msg e) = msg"
| "Error (JoinError es) = strings_Join (map Error es) [CHR 0x0A]"

text \<open>\<open>strings.Contains(s, substr)\<close>.\<close>

fun Contains :: "string \<Rightarrow> string \<Rightarrow> bool" where
  "Contains [] substr = (substr = [])"
| "Contains (c # s) substr = (take (length substr) (c # s) = substr \<or> Contains s substr)"

section \<open>Contexts with a cancellation cause\<close>

text \<open>
  The state of a \<open>context.Context\<close>: \<open>None\<close> while it is not done, \<open>Some (err, cause)\<close>
  once it is, where \<open>err\<close> is what \<open>ctx.Err()\<close> returns and \<open>cause\<close> what
  \<open>context.Cause(ctx)\<close> returns. A context that is done stays as it is: the first
  cancellation wins.
\<close>

type_synonym ctx = "(error \<times> error) option"

definition ctx_Err :: "ctx \<Rightarrow> error option" where
  "ctx_Err c = map_option fst c"

definition ctx_Cause :: "ctx \<Rightarrow> error option" where
  "ctx_Cause c = map_option snd c"

text \<open>
  The \<open>CancelCauseFunc\<close> of \<open>context.WithCancelCause\<close>: \<open>cancel(cause)\<close> records the
  cause (\<open>context.Canceled\<close> for a nil cause); \<open>ctx.Err()\<close> is \<open>context.Canceled\<close>
  whatever the cause.
\<close>

definition cancel :: "error option \<Rightarrow> ctx \<Rightarrow> ctx" where
  "cancel cause c =
     (case c of
        Some d \<Rightarrow> Some d
      | None \<Rightarrow> Some (Canceled, case cause of None \<Rightarrow> Canceled | Some e \<Rightarrow> e))"

text \<open>The deadline of a context expires.\<close>

definition deadline :: "ctx \<Rightarrow> ctx" where
  "deadline c = (case c of Some d \<Rightarrow> Some d | None \<Rightarrow> Some (DeadlineExceeded, DeadlineExceeded))"

text \<open>
  A child context follows its parent: when the parent is done and the child is not,
  the child is done with the parent's error and cause.
\<close>

definition propagate :: "ctx \<Rightarrow> ctx \<Rightarrow> ctx" where
  "propagate parent child = (case child of Some d \<Rightarrow> Some d | None \<Rightarrow> parent)"

text \<open>
  \<open>context.WithCancelCause(parent)\<close>: the new context, which is done from the start
  when the parent is.
\<close>

definition WithCancelCause :: "ctx \<Rightarrow> ctx" where
  "WithCancelCause parent = propagate parent None"

section \<open>The page: locators and field-level actions\<close>

text \<open>
  A locator is built as the code builds it: \<open>page.Locator(sel)\<close>,
  \<open>locator.Locator(sel)\<close> and \<open>locator.First()\<close>.
\<close>

datatype locator =
    PageLocator string
  | SubLocator locator string
  | First locator

datatype action =
    Fill string
  | Click
  | Check bool
  | WaitForHidden

text \<open>
  The driver is an external collaborator. What the page answers while a Reaction runs is
  a value of type \<open>env\<close>: the error (or \<open>nil\<close>) of each action on each locator, and the
  text and error of \<open>InnerText\<close> on a locator with a timeout in milliseconds.
\<close>

record env =
  act :: "locator \<Rightarrow> action \<Rightarrow> error option"
  InnerText :: "locator \<Rightarrow> nat \<Rightarrow> string \<times> error option"

text \<open>A Reaction: the callback \<open>cb(ctx, locator)\<close>, run against what the page answers.\<close>

type_synonym reaction = "env \<Rightarrow> ctx \<Rightarrow> locator \<Rightarrow> error option"

section \<open>The Jira handlers (jira.go)\<close>

record JiraLoginHandler =
  CredentialsResolver :: "ctx \<Rightarrow> string \<times> string \<times> error option"
  RememberMe :: bool

definition sel_login_form :: string where
  \<open>sel_login_form = ''//form[contains(@action, "/login.jsp")]''\<close>

definition sel_os_password :: string where
  \<open>sel_os_password = ''[name="os_password"]''\<close>

definition sel_os_username :: string where
  \<open>sel_os_username = ''[name="os_username"]''\<close>

definition sel_remember_me :: string where
  \<open>sel_remember_me = ''[for="login-form-remember-me"]''\<close>

definition sel_login_button :: string where
  \<open>sel_login_button = ''[name="login"]''\<close>

definition sel_login_error :: string where
  \<open>sel_login_error =
     ''//form[@id="login-form"]//div[contains(concat(' ', @class, ' '), ' aui-message-error ')]''\<close>

text \<open>The callback that \<open>JiraLoginHandler.Run\<close> passes to \<open>RunPageLocator\<close>.\<close>

definition JiraLoginReaction :: "JiraLoginHandler \<Rightarrow> reaction" where
  "JiraLoginReaction s e ctx locator =
     (case CredentialsResolver s ctx of
        (username, password, Some err) \<Rightarrow> Some err
      | (username, password, None) \<Rightarrow>
     (case act e (SubLocator locator sel_os_password) (Fill password) of
        Some err \<Rightarrow> Some err
      | None \<Rightarrow>
     (case act e (First (SubLocator locator sel_os_username)) (Fill username) of
        Some err \<Rightarrow> Some err
      | None \<Rightarrow>
     (case (if RememberMe s then act e (SubLocator locator sel_remember_me) (Check True)
            else None) of
        Some err \<Rightarrow> Some err
      | None \<Rightarrow>
     (case act e (SubLocator locator sel_login_button) Click of
        Some err \<Rightarrow> Some err
      | None \<Rightarrow>
     (case act e locator WaitForHidden of
        Some err \<Rightarrow> Some err
      | None \<Rightarrow>
     (case InnerText e (PageLocator sel_login_error) 1000 of
        (loginErr, Some err) \<Rightarrow> if errors_Is err ErrTimeout then None else Some err
      | (loginErr, None) \<Rightarrow> Some (ErrorString (''login error: '' @ loginErr)))))))))"

record JiraSudoHandler =
  PasswordResolver :: "ctx \<Rightarrow> string \<times> error option"

definition sel_sudo_form :: string where
  \<open>sel_sudo_form = ''//form[contains(@action, "/WebSudoAuthenticate.jspa")]''\<close>

definition sel_sudo_password :: string where
  \<open>sel_sudo_password = ''[name="webSudoPassword"]''\<close>

definition sel_submit :: string where
  \<open>sel_submit = ''[type="submit"]''\<close>

definition JiraSudoReaction :: "JiraSudoHandler \<Rightarrow> reaction" where
  "JiraSudoReaction s e ctx locator =
     (case PasswordResolver s ctx of
        (password, Some err) \<Rightarrow> Some err
      | (password, None) \<Rightarrow>
     (case act e (SubLocator locator sel_sudo_password) (Fill password) of
        Some err \<Rightarrow> Some err
      | None \<Rightarrow>
     (case act e (SubLocator locator sel_submit) Click of
        Some err \<Rightarrow> Some err
      | None \<Rightarrow> None)))"

section \<open>RunPageLocator (jira.go)\<close>

text \<open>
  \<open>RunPageLocator\<close> blocks on \<open>ctx.Done()\<close> while the page, on another thread of
  control, invokes the registered handler. A call is therefore a state machine. Its
  state is \<open>NotStarted\<close> before its goroutine has run, \<open>Blocked c\<close> once the handler is
  registered and the call waits on its own context \<open>c\<close>, and \<open>Returned r\<close> once the call
  has returned \<open>r\<close> (\<open>None\<close> for \<open>nil\<close>). The page's table of locator handlers is a set
  of locators.
\<close>

datatype wstate = NotStarted | Blocked ctx | Returned "error option"

text \<open>
  From the entry to the blocking point: \<open>locator.Page()\<close> answers \<open>pageErr\<close> and
  \<open>page.AddLocatorHandler\<close> answers \<open>addErr\<close>; either error is returned at once.
  Otherwise the handler is registered and the call waits on the context derived from
  \<open>ctx\<close> by \<open>context.WithCancelCause\<close>.
\<close>

definition RunPageLocator_start ::
  "ctx \<Rightarrow> locator \<Rightarrow> error option \<Rightarrow> error option \<Rightarrow> locator set \<Rightarrow> wstate \<times> locator set" where
  "RunPageLocator_start ctx locator pageErr addErr hs =
     (case pageErr of
        Some err \<Rightarrow> (Returned (Some err), hs)
      | None \<Rightarrow>
          (case addErr of
             Some err \<Rightarrow> (Returned (Some err), hs)
           | None \<Rightarrow> (Blocked (WithCancelCause ctx), insert locator hs)))"

text \<open>
  The handler given to \<open>AddLocatorHandler\<close>: the page invokes it, while it is
  registered, with what the page answers in \<open>e\<close>. It runs the callback on the derived
  context and cancels that context, with the error as cause, only when the callback
  returns an error.
\<close>

definition RunPageLocator_handler ::
  "reaction \<Rightarrow> locator \<Rightarrow> env \<Rightarrow> locator set \<Rightarrow> wstate \<Rightarrow> wstate" where
  "RunPageLocator_handler cb locator e hs w =
     (case w of
        Blocked c \<Rightarrow>
          (if locator \<in> hs then
             (case cb e c locator of
                Some err \<Rightarrow> Blocked (cancel (Some err) c)
              | None \<Rightarrow> Blocked c)
           else Blocked c)
      | _ \<Rightarrow> w)"

text \<open>The context the call was given is done: the derived context follows it.\<close>

definition RunPageLocator_parent :: "ctx \<Rightarrow> wstate \<Rightarrow> wstate" where
  "RunPageLocator_parent parent w =
     (case w of Blocked c \<Rightarrow> Blocked (propagate parent c) | _ \<Rightarrow> w)"

text \<open>
  From the blocking point to the return: once the derived context is done, the call
  removes the handler and returns \<open>ctx.Err()\<close>.
\<close>

definition RunPageLocator_finish :: "locator \<Rightarrow> wstate \<times> locator set \<Rightarrow> wstate \<times> locator set" where
  "RunPageLocator_finish locator p =
     (case p of
        (Blocked (Some d), hs) \<Rightarrow> (Returned (ctx_Err (Some d)), hs - {locator})
      | _ \<Rightarrow> p)"

text \<open>
  What happens around one call: the page observes the pattern and invokes the handler
  (\<open>Fire\<close>), the call's goroutine gets to run (\<open>Wake\<close>), the caller cancels the context
  it passed, with a cause or \<open>nil\<close> (\<open>CancelOuter\<close>), or that context's deadline expires
  (\<open>DeadlineOuter\<close>). The only trace a Reaction leaves in this state is the cancellation
  at its end, so \<open>Fire\<close> stands at the moment the Reaction completes.
\<close>

datatype event = Fire env | Wake | CancelOuter "error option" | DeadlineOuter

record watch =
  w_outer :: ctx
  w_state :: wstate
  w_handlers :: "locator set"

fun watch_step :: "reaction \<Rightarrow> locator \<Rightarrow> watch \<Rightarrow> event \<Rightarrow> watch" where
  "watch_step cb locator s (Fire e) =
     s\<lparr>w_state := RunPageLocator_handler cb locator e (w_handlers s) (w_state s)\<rparr>"
| "watch_step cb locator s Wake =
     (case RunPageLocator_finish locator (w_state s, w_handlers s) of
        (w', hs') \<Rightarrow> s\<lparr>w_state := w', w_handlers := hs'\<rparr>)"
| "watch_step cb locator s (CancelOuter cause) =
     s\<lparr>w_outer := cancel cause (w_outer s),
       w_state := RunPageLocator_parent (cancel cause (w_outer s)) (w_state s)\<rparr>"
| "watch_step cb locator s DeadlineOuter =
     s\<lparr>w_outer := deadline (w_outer s),
       w_state := RunPageLocator_parent (deadline (w_outer s)) (w_state s)\<rparr>"

text \<open>
  \<open>RunPageLocator(ctx, locator, cb)\<close> on a page whose handler table is \<open>hs\<close>, under a
  schedule of events; after the schedule the goroutine gets to run once more, so that a
  call whose context is done has returned. The optional \<open>options\<close> are passed on to the
  driver and no caller gives any.
\<close>

definition RunPageLocator ::
  "ctx \<Rightarrow> locator \<Rightarrow> reaction \<Rightarrow> error option \<Rightarrow> error option \<Rightarrow> locator set \<Rightarrow> event list
     \<Rightarrow> watch" where
  "RunPageLocator ctx locator cb pageErr addErr hs events =
     (case RunPageLocator_start ctx locator pageErr addErr hs of
        (w0, hs0) \<Rightarrow>
          watch_step cb locator
            (foldl (watch_step cb locator)
               \<lparr>w_outer = ctx, w_state = w0, w_handlers = hs0\<rparr> events)
            Wake)"

text \<open>
  What a call has returned: \<open>None\<close> while it has not returned, \<open>Some r\<close> once it has
  returned \<open>r\<close>.
\<close>

definition returned :: "wstate \<Rightarrow> error option option" where
  "returned w = (case w of Returned r \<Rightarrow> Some r | _ \<Rightarrow> None)"

text \<open>\<open>JiraSudoHandler.Run\<close> is one call of \<open>RunPageLocator\<close>.\<close>

definition JiraSudoHandler_Run ::
  "JiraSudoHandler \<Rightarrow> ctx \<Rightarrow> error option \<Rightarrow> error option \<Rightarrow> locator set \<Rightarrow> event list \<Rightarrow> watch" where
  "JiraSudoHandler_Run s ctx pageErr addErr hs events =
     RunPageLocator ctx (PageLocator sel_sudo_form) (JiraSudoReaction s) pageErr addErr hs events"

section \<open>The Atlassian login handler\<close>

record AtlassianLoginHandler =
  UsernameResolver :: "ctx \<Rightarrow> string \<times> error option"
  PasswordResolver :: "ctx \<Rightarrow> string \<times> error option"
  OTPCodeResolver :: "ctx \<Rightarrow> string \<times> error option"

definition sel_form_username :: string where
  \<open>sel_form_username = ''//form[@data-testid="form-login"]//input[@data-testid="username"]''\<close>

definition sel_form_password :: string where
  \<open>sel_form_password = ''//form[@data-testid="form-login"]//input[@data-testid="password"]''\<close>

definition sel_form_submit :: string where
  \<open>sel_form_submit = ''//form[@data-testid="form-login"]//*[@type="submit"]''\<close>

definition sel_otp_input :: string where
  \<open>sel_otp_input =
     ''//form//input[@id="two-step-verification-otp-code-input" and not(@disabled)]''\<close>

definition sel_skip_otp :: string where
  \<open>sel_skip_otp = ''//*[text()="Continue without two-step verification"]''\<close>

text \<open>The four callbacks of \<open>AtlassianLoginHandler.Run\<close>, in the order of the source.\<close>

definition AtlassianUsernameReaction :: "AtlassianLoginHandler \<Rightarrow> reaction" where
  "AtlassianUsernameReaction s e ctx locator =
     (case UsernameResolver s ctx of
        (username, Some err) \<Rightarrow> Some err
      | (username, None) \<Rightarrow>
     (case act e (PageLocator sel_form_username) (Fill username) of
        Some err \<Rightarrow> Some err
      | None \<Rightarrow> act e (PageLocator sel_form_submit) Click))"

definition AtlassianPasswordReaction :: "AtlassianLoginHandler \<Rightarrow> reaction" where
  "AtlassianPasswordReaction s e ctx locator =
     (case PasswordResolver s ctx of
        (password, Some err) \<Rightarrow> Some err
      | (password, None) \<Rightarrow>
     (case act e (PageLocator sel_form_password) (Fill password) of
        Some err \<Rightarrow> Some err
      | None \<Rightarrow> act e (PageLocator sel_form_submit) Click))"

definition AtlassianOTPReaction :: "AtlassianLoginHandler \<Rightarrow> reaction" where
  "AtlassianOTPReaction s e ctx locator =
     (case OTPCodeResolver s ctx of
        (otpCode, Some err) \<Rightarrow> Some err
      | (otpCode, None) \<Rightarrow> act e (PageLocator sel_otp_input) (Fill otpCode))"

definition AtlassianSkipReaction :: "AtlassianLoginHandler \<Rightarrow> reaction" where
  "AtlassianSkipReaction s e ctx locator = act e (PageLocator sel_skip_otp) Click"

section \<open>Groups of watchers (errgroup)\<close>

text \<open>
  A \<open>Run\<close> method makes an \<open>errgroup.Group\<close> with a context derived from the one it was
  given, starts one goroutine per watcher, each a call of \<open>RunPageLocator\<close> on the
  group's context, and waits for all of them. The state holds the context \<open>Run\<close> was
  given, the group's context, the group's error (the first non-nil error a goroutine
  returned), the page's handler table and the state of each goroutine.
\<close>

record group =
  g_outer :: ctx
  g_ctx :: ctx
  g_err :: "error option"
  g_handlers :: "locator set"
  g_workers :: "wstate list"

text \<open>
  The end of a goroutine started by \<open>g.Go\<close>: the first non-nil error is kept and
  cancels the group's context, with the error as cause; the contexts derived from the
  group's context follow.
\<close>

definition Group_done :: "error option \<Rightarrow> group \<Rightarrow> group" where
  "Group_done r g =
     (case r of
        None \<Rightarrow> g
      | Some err \<Rightarrow>
          (if g_err g = None then
             g\<lparr>g_err := Some err,
               g_ctx := cancel (Some err) (g_ctx g),
               g_workers := map (RunPageLocator_parent (cancel (Some err) (g_ctx g))) (g_workers g)\<rparr>
           else g))"

definition Group_Go_done :: "wstate \<Rightarrow> group \<Rightarrow> group" where
  "Group_Go_done w g = (case w of Returned r \<Rightarrow> Group_done r g | _ \<Rightarrow> g)"

text \<open>
  What happens around a group: goroutine \<open>i\<close> starts and runs to its blocking point
  (\<open>GStart\<close>), the page observes the pattern of watcher \<open>i\<close> and invokes its handler
  (\<open>GFire\<close>), goroutine \<open>i\<close> gets to run (\<open>GWake\<close>), the caller cancels the context it
  gave to \<open>Run\<close> (\<open>GCancelOuter\<close>) or that context's deadline expires
  (\<open>GDeadlineOuter\<close>).
\<close>

datatype gevent =
    GStart nat
  | GFire nat env
  | GWake nat
  | GCancelOuter "error option"
  | GDeadlineOuter

text \<open>
  A watcher is a locator with its callback. \<open>reg i\<close> is what \<open>locator.Page()\<close> and
  \<open>page.AddLocatorHandler\<close> answer to watcher \<open>i\<close>.
\<close>

type_synonym watcher = "locator \<times> reaction"

definition outer_done :: "ctx \<Rightarrow> group \<Rightarrow> group" where
  "outer_done c g =
     g\<lparr>g_outer := c,
       g_ctx := propagate c (g_ctx g),
       g_workers := map (RunPageLocator_parent (propagate c (g_ctx g))) (g_workers g)\<rparr>"

fun group_step ::
  "watcher list \<Rightarrow> (nat \<Rightarrow> error option \<times> error option) \<Rightarrow> group \<Rightarrow> gevent \<Rightarrow> group" where
  "group_step ws reg g (GStart i) =
     (if i < length ws \<and> i < length (g_workers g) \<and> g_workers g ! i = NotStarted then
        (case RunPageLocator_start (g_ctx g) (fst (ws ! i)) (fst (reg i)) (snd (reg i))
                (g_handlers g) of
           (w', hs') \<Rightarrow>
             Group_Go_done w' (g\<lparr>g_handlers := hs', g_workers := (g_workers g)[i := w']\<rparr>))
      else g)"
| "group_step ws reg g (GFire i e) =
     (if i < length ws \<and> i < length (g_workers g) then
        g\<lparr>g_workers := (g_workers g)
             [i := RunPageLocator_handler (snd (ws ! i)) (fst (ws ! i)) e (g_handlers g)
                     (g_workers g ! i)]\<rparr>
      else g)"
| "group_step ws reg g (GWake i) =
     (if i < length ws \<and> i < length (g_workers g) then
        (case g_workers g ! i of
           Blocked (Some d) \<Rightarrow>
             (case RunPageLocator_finish (fst (ws ! i)) (Blocked (Some d), g_handlers g) of
                (w', hs') \<Rightarrow>
                  Group_Go_done w' (g\<lparr>g_handlers := hs', g_workers := (g_workers g)[i := w']\<rparr>))
         | _ \<Rightarrow> g)
      else g)"
| "group_step ws reg g (GCancelOuter cause) = outer_done (cancel cause (g_outer g)) g"
| "group_step ws reg g GDeadlineOuter = outer_done (deadline (g_outer g)) g"

text \<open>
  After a schedule every goroutine gets to run: those that have not started start, and
  those whose context is done return (twice over, since the first return cancels the
  group's context for the others).
\<close>

definition settle :: "nat \<Rightarrow> gevent list" where
  "settle k = map GStart [0..<k] @ map GWake [0..<k] @ map GWake [0..<k]"

text \<open>
  \<open>errgroup.WithContext(ctx)\<close>, one \<open>g.Go\<close> per watcher, and the events until \<open>g.Wait()\<close>
  is reached.
\<close>

definition Group_Run ::
  "watcher list \<Rightarrow> (nat \<Rightarrow> error option \<times> error option) \<Rightarrow> ctx \<Rightarrow> locator set \<Rightarrow> gevent list
     \<Rightarrow> group" where
  "Group_Run ws reg ctx hs events =
     foldl (group_step ws reg)
       \<lparr>g_outer = ctx, g_ctx = WithCancelCause ctx, g_err = None, g_handlers = hs,
        g_workers = replicate (length ws) NotStarted\<rparr>
       (events @ settle (length ws))"

text \<open>
  \<open>g.Wait()\<close> returns the group's error once every goroutine has returned: \<open>None\<close> while
  it has not returned, \<open>Some r\<close> once it has returned \<open>r\<close>.
\<close>

definition Group_Wait :: "group \<Rightarrow> error option option" where
  "Group_Wait g =
     (if list_all (\<lambda>w. returned w \<noteq> None) (g_workers g) then Some (g_err g) else None)"

definition JiraLoginHandler_watchers :: "JiraLoginHandler \<Rightarrow> watcher list" where
  "JiraLoginHandler_watchers s = [(PageLocator sel_login_form, JiraLoginReaction s)]"

definition JiraLoginHandler_Run ::
  "JiraLoginHandler \<Rightarrow> (nat \<Rightarrow> error option \<times> error option) \<Rightarrow> ctx \<Rightarrow> locator set \<Rightarrow> gevent list
     \<Rightarrow> error option option" where
  "JiraLoginHandler_Run s reg ctx hs events =
     Group_Wait (Group_Run (JiraLoginHandler_watchers s) reg ctx hs events)"

definition AtlassianLoginHandler_watchers :: "AtlassianLoginHandler \<Rightarrow> watcher list" where
  "AtlassianLoginHandler_watchers s =
     [(PageLocator sel_form_username, AtlassianUsernameReaction s),
      (PageLocator sel_form_password, AtlassianPasswordReaction s),
      (PageLocator sel_otp_input, AtlassianOTPReaction s),
      (PageLocator sel_skip_otp, AtlassianSkipReaction s)]"

definition AtlassianLoginHandler_Run ::
  "AtlassianLoginHandler \<Rightarrow> (nat \<Rightarrow> error option \<times> error option) \<Rightarrow> ctx \<Rightarrow> locator set
     \<Rightarrow> gevent list \<Rightarrow> error option option" where
  "AtlassianLoginHandler_Run s reg ctx hs events =
     Group_Wait (Group_Run (AtlassianLoginHandler_watchers s) reg ctx hs events)"

section \<open>The secondary Atlassian session (run)\<close>

text \<open>
  \<open>run\<close> wraps the creation of the Atlassian page in \<open>sync.OnceValues\<close> and hands the
  resulting function, \<open>resolveAtlassianPage\<close>, to every processed instance. The state
  holds what \<open>sync.OnceValues\<close> has stored (\<open>None\<close> before the first call), the number
  of calls of \<open>browserContext.NewPage\<close> the wrapped function has made, and the
  goroutines started on \<open>rootGroup\<close>.
\<close>

datatype Page = Page nat

datatype goroutine =
    ClosePageOnDone "Page option"
  | RunAtlassianLogin "Page option"

record session =
  onceValues :: "(Page option \<times> error option) option"
  newPageCalls :: nat
  rootGroup :: "goroutine list"

text \<open>
  The function given to \<open>sync.OnceValues\<close>. \<open>NewPage k\<close> is what the driver answers to
  the call number \<open>k\<close> of \<open>browserContext.NewPage\<close>. On success the function starts the
  goroutine that closes the page when the context is done and the goroutine that runs
  the login handler (\<open>rootGroup\<close> has no limit, so \<open>TryGo\<close> starts it).
\<close>

definition newAtlassianPage ::
  "(nat \<Rightarrow> Page option \<times> error option) \<Rightarrow> session \<Rightarrow> (Page option \<times> error option) \<times> session" where
  "newAtlassianPage NewPage st =
     (case NewPage (newPageCalls st) of
        (atlassianPage, Some err) \<Rightarrow>
          ((None, Some (WrapError (''could not create page: '' @ Error err) err)),
           st\<lparr>newPageCalls := Suc (newPageCalls st)\<rparr>)
      | (atlassianPage, None) \<Rightarrow>
          ((atlassianPage, None),
           st\<lparr>newPageCalls := Suc (newPageCalls st),
              rootGroup := rootGroup st
                @ [ClosePageOnDone atlassianPage, RunAtlassianLogin atlassianPage]\<rparr>))"

text \<open>
  \<open>sync.OnceValues(f)\<close>: the first call runs \<open>f\<close> and stores what it returns; every
  call returns the stored values.
\<close>

definition resolveAtlassianPage ::
  "(nat \<Rightarrow> Page option \<times> error option) \<Rightarrow> session \<Rightarrow> (Page option \<times> error option) \<times> session" where
  "resolveAtlassianPage NewPage st =
     (case onceValues st of
        Some r \<Rightarrow> (r, st)
      | None \<Rightarrow>
          (case newAtlassianPage NewPage st of
             (r, st') \<Rightarrow> (r, st'\<lparr>onceValues := Some r\<rparr>)))"

text \<open>A sequence of \<open>n\<close> calls, one after the other, with what each returned.\<close>

fun resolveAtlassianPage_calls ::
  "(nat \<Rightarrow> Page option \<times> error option) \<Rightarrow> nat \<Rightarrow> session
     \<Rightarrow> (Page option \<times> error option) list \<times> session" where
  "resolveAtlassianPage_calls NewPage 0 st = ([], st)"
| "resolveAtlassianPage_calls NewPage (Suc n) st =
     (case resolveAtlassianPage NewPage st of
        (r, st') \<Rightarrow>
          (case resolveAtlassianPage_calls NewPage n st' of
             (rs, st'') \<Rightarrow> (r # rs, st'')))"

definition session_init :: session where
  "session_init = \<lparr>onceValues = None, newPageCalls = 0, rootGroup = []\<rparr>"

fun is_login :: "goroutine \<Rightarrow> bool" where
  "is_login (RunAtlassianLogin p) = True"
| "is_login (ClosePageOnDone p) = False"

definition loginHandlers :: "session \<Rightarrow> nat" where
  "loginHandlers st = length (filter is_login (rootGroup st))"

section \<open>Schedules and invariants\<close>

text \<open>
  An event of a single call under which the call keeps waiting: a Reaction that
  completes successfully, or the goroutine getting to run.
\<close>

definition quiet :: "reaction \<Rightarrow> locator \<Rightarrow> event \<Rightarrow> bool" where
  "quiet cb locator ev =
     (case ev of
        Fire e \<Rightarrow> cb e None locator = None
      | Wake \<Rightarrow> True
      | CancelOuter cause \<Rightarrow> False
      | DeadlineOuter \<Rightarrow> False)"

text \<open>A call that has returned has returned an error and has removed its handler.\<close>

definition returned_ok :: "locator \<Rightarrow> watch \<Rightarrow> bool" where
  "returned_ok l s =
     (case w_state s of Returned r \<Rightarrow> r \<noteq> None \<and> l \<notin> w_handlers s | _ \<Rightarrow> True)"

text \<open>
  An event of a group under which every Reaction that runs completes successfully and
  the caller's context stays as it is.
\<close>

definition succeeds :: "watcher list \<Rightarrow> gevent \<Rightarrow> bool" where
  "succeeds ws ev =
     (case ev of
        GFire i e \<Rightarrow> i < length ws \<longrightarrow> snd (ws ! i) e None (fst (ws ! i)) = None
      | GCancelOuter cause \<Rightarrow> False
      | GDeadlineOuter \<Rightarrow> False
      | _ \<Rightarrow> True)"

text \<open>Every goroutine that has returned has returned an error, and the group has kept one.\<close>

definition errs_kept :: "group \<Rightarrow> bool" where
  "errs_kept g = (\<forall>r. Returned r \<in> set (g_workers g) \<longrightarrow> r \<noteq> None \<and> g_err g \<noteq> None)"

text \<open>No context is done and no goroutine has returned.\<close>

definition all_waiting :: "group \<Rightarrow> bool" where
  "all_waiting g =
     (g_outer g = None \<and> g_ctx g = None \<and> g_err g = None
      \<and> (\<forall>w\<in>set (g_workers g). w = NotStarted \<or> w = Blocked None))"

section \<open>Scenarios\<close>

text \<open>
  What the page answers: every action succeeds and the error banner is not found within
  its bound (\<open>page_ok\<close>); the banner shows a message (\<open>page_banner\<close>); the probe fails
  for another reason (\<open>page_closed\<close>).
\<close>

definition page_ok :: env where
  "page_ok =
     \<lparr>act = (\<lambda>l a. None),
      InnerText = (\<lambda>l t. ([], Some (WrapError ''timeout: Timeout 1000ms exceeded.'' ErrTimeout)))\<rparr>"

definition page_banner :: env where
  "page_banner =
     \<lparr>act = (\<lambda>l a. None), InnerText = (\<lambda>l t. (''Invalid username or password'', None))\<rparr>"

definition page_closed :: env where
  "page_closed =
     \<lparr>act = (\<lambda>l a. None), InnerText = (\<lambda>l t. ([], Some (ErrorString ''target closed'')))\<rparr>"

text \<open>Handlers whose resolvers succeed, and handlers whose account has no credentials.\<close>

definition jira_login :: JiraLoginHandler where
  "jira_login = \<lparr>CredentialsResolver = (\<lambda>c. (''admin'', ''s3cret'', None)), RememberMe = True\<rparr>"

definition sudo_ok :: JiraSudoHandler where
  "sudo_ok = \<lparr>JiraSudoHandler.PasswordResolver = (\<lambda>c. (''s3cret'', None))\<rparr>"

definition sudo_bad :: JiraSudoHandler where
  "sudo_bad =
     \<lparr>JiraSudoHandler.PasswordResolver =
        (\<lambda>c. ([], Some (ErrorString ''no credentials specified'')))\<rparr>"

definition atlassian_ok :: AtlassianLoginHandler where
  "atlassian_ok =
     \<lparr>UsernameResolver = (\<lambda>c. (''admin'', None)),
      PasswordResolver = (\<lambda>c. (''s3cret'', None)),
      OTPCodeResolver = (\<lambda>c. (''123456'', None))\<rparr>"

definition atlassian_bad :: AtlassianLoginHandler where
  "atlassian_bad =
     \<lparr>UsernameResolver = (\<lambda>c. (''admin'', None)),
      PasswordResolver = (\<lambda>c. ([], Some (ErrorString ''no credentials specified''))),
      OTPCodeResolver = (\<lambda>c. (''123456'', None))\<rparr>"

text \<open>Every registration succeeds.\<close>

definition reg_ok :: "nat \<Rightarrow> error option \<times> error option" where
  "reg_ok i = (None, None)"

text \<open>The driver creates page \<open>k\<close> at call \<open>k\<close>; the driver refuses every page.\<close>

definition pages_ok :: "nat \<Rightarrow> Page option \<times> error option" where
  "pages_ok k = (Some (Page k), None)"

definition pages_fail :: "nat \<Rightarrow> Page option \<times> error option" where
  "pages_fail k = (None, Some (ErrorString ''target closed''))"

section \<open>Properties of ResolveCredentials\<close>

text \<open>
  C10: \<open>ResolveCredentials\<close> returns non-nil credentials with a nil error exactly when
  \<open>account.Plain\<close> is non-nil, and the credentials then carry the username and password
  of \<open>account.Plain\<close>; otherwise it returns nil credentials with the non-nil error
  "no credentials specified". It never returns nil credentials with a nil error.
\<close>

theorem ResolveCredentials_spec:
  "((fst (ResolveCredentials ctx account) \<noteq> None \<and> snd (ResolveCredentials ctx account) = None)
      \<longleftrightarrow> Plain account \<noteq> None)
   \<and> (\<forall>plain. Plain account = Some plain \<longrightarrow>
         ResolveCredentials ctx account =
           (Some \<lparr>Username = AccountPlain.Username plain,
                  Password = AccountPlain.Password plain\<rparr>, None))
   \<and> (Plain account = None \<longrightarrow>
         ResolveCredentials ctx account = (None, Some (ErrorString ''no credentials specified'')))
   \<and> ResolveCredentials ctx account \<noteq> (None, None)"
  by (cases "Plain account") (simp_all add: ResolveCredentials_def)

theorem ResolveCredentials_spec_witness:
  "Plain \<lparr>Plain = Some \<lparr>AccountPlain.Username = ''admin'', AccountPlain.Password = ''s3cret''\<rparr>\<rparr>
     = Some \<lparr>AccountPlain.Username = ''admin'', AccountPlain.Password = ''s3cret''\<rparr>
   \<and> ResolveCredentials ()
       \<lparr>Plain = Some \<lparr>AccountPlain.Username = ''admin'', AccountPlain.Password = ''s3cret''\<rparr>\<rparr>
     = (Some \<lparr>Username = ''admin'', Password = ''s3cret''\<rparr>, None)
   \<and> Plain \<lparr>Plain = None\<rparr> = None
   \<and> ResolveCredentials () \<lparr>Plain = None\<rparr>
     = (None, Some (ErrorString ''no credentials specified''))"
  using
    ResolveCredentials_spec [of "()"
      "\<lparr>Plain = Some \<lparr>AccountPlain.Username = ''admin'', AccountPlain.Password = ''s3cret''\<rparr>\<rparr>"]
    ResolveCredentials_spec [of "()" "\<lparr>Plain = None\<rparr>"]
  by simp

section \<open>Properties of TimeParseAny\<close>

lemma TimeParseAny_loop_first:
  "find (\<lambda>f. snd (parse f v) = None) formats = Some f
   \<Longrightarrow> TimeParseAny_loop parse errs formats v = (fst (parse f v), None)"
  by (induction formats arbitrary: errs) (auto split: prod.splits option.splits if_splits)

lemma TimeParseAny_loop_none:
  "find (\<lambda>f. snd (parse f v) = None) formats = None
   \<Longrightarrow> TimeParseAny_loop parse errs formats v =
       (Time_zero, errors_Join (errs @ map (\<lambda>f. the (snd (parse f v))) formats))"
  by (induction formats arbitrary: errs) (auto split: prod.splits option.splits if_splits)

text \<open>
  When some format parses the value, the result is the time of the first such format,
  with a nil error.
\<close>

lemma TimeParseAny_first:
  "find (\<lambda>f. snd (parse f v) = None) formats = Some f
   \<Longrightarrow> TimeParseAny parse formats v = (fst (parse f v), None)"
  by (simp add: TimeParseAny_def TimeParseAny_loop_first)

text \<open>
  When no format of a non-empty list parses the value, the result is the zero time with
  the non-nil error that joins the parse errors in list order.
\<close>

lemma TimeParseAny_none:
  "formats \<noteq> [] \<Longrightarrow> find (\<lambda>f. snd (parse f v) = None) formats = None
   \<Longrightarrow> TimeParseAny parse formats v =
       (Time_zero, Some (JoinError (map (\<lambda>f. the (snd (parse f v))) formats)))"
  by (simp add: TimeParseAny_def TimeParseAny_loop_none errors_Join_def)

text \<open>
  C9: with an empty list of formats no format parses the value, and \<open>TimeParseAny\<close>
  returns the zero time together with a nil error: \<open>errors.Join\<close> of no error is \<open>nil\<close>.
\<close>

theorem TimeParseAny_no_formats:
  "TimeParseAny parse [] v = (Time_zero, None)"
  by (simp add: TimeParseAny_def errors_Join_def)

section \<open>Properties of the login Reaction\<close>

lemma Contains_self: "Contains t t"
  by (cases t) simp_all

lemma Contains_append: "Contains (p @ t) t"
  by (induction p) (simp_all add: Contains_self)

lemma JiraLoginReaction_reaches_probe:
  assumes "CredentialsResolver s ctx = (username, password, None)"
    and "act e (SubLocator l sel_os_password) (Fill password) = None"
    and "act e (First (SubLocator l sel_os_username)) (Fill username) = None"
    and "RememberMe s \<longrightarrow> act e (SubLocator l sel_remember_me) (Check True) = None"
    and "act e (SubLocator l sel_login_button) Click = None"
    and "act e l WaitForHidden = None"
  shows "JiraLoginReaction s e ctx l =
           (case InnerText e (PageLocator sel_login_error) 1000 of
              (loginErr, Some err) \<Rightarrow> if errors_Is err ErrTimeout then None else Some err
            | (loginErr, None) \<Rightarrow> Some (ErrorString (''login error: '' @ loginErr)))"
  using assms by (simp add: JiraLoginReaction_def split: prod.splits option.splits)

text \<open>
  C6: once the form has been filled and submitted, the login Reaction reads the error
  banner's inner text with a bound of 1000 ms. When that read fails with the timeout
  error (\<open>playwright.ErrTimeout\<close> itself, or an error that \<open>errors.Is\<close> finds it in), the
  Reaction returns \<open>nil\<close>; when it fails with any other error, the Reaction returns that
  error.
\<close>

theorem JiraLoginReaction_probe:
  assumes "CredentialsResolver s ctx = (username, password, None)"
    and "act e (SubLocator l sel_os_password) (Fill password) = None"
    and "act e (First (SubLocator l sel_os_username)) (Fill username) = None"
    and "RememberMe s \<longrightarrow> act e (SubLocator l sel_remember_me) (Check True) = None"
    and "act e (SubLocator l sel_login_button) Click = None"
    and "act e l WaitForHidden = None"
    and "InnerText e (PageLocator sel_login_error) 1000 = (loginErr, Some err)"
  shows "(err = ErrTimeout \<longrightarrow> JiraLoginReaction s e ctx l = None)
       \<and> (errors_Is err ErrTimeout \<longrightarrow> JiraLoginReaction s e ctx l = None)
       \<and> (\<not> errors_Is err ErrTimeout \<longrightarrow> JiraLoginReaction s e ctx l = Some err)"
  using JiraLoginReaction_reaches_probe [OF assms(1-6)] assms(7) by auto

theorem JiraLoginReaction_probe_witness:
  "JiraLoginReaction jira_login page_ok None (PageLocator sel_login_form) = None
   \<and> JiraLoginReaction jira_login page_closed None (PageLocator sel_login_form)
       = Some (ErrorString ''target closed'')
   \<and> \<not> errors_Is (ErrorString ''target closed'') ErrTimeout
   \<and> errors_Is (WrapError ''timeout: Timeout 1000ms exceeded.'' ErrTimeout) ErrTimeout"
  using
    JiraLoginReaction_probe [of jira_login None "''admin''" "''s3cret''" page_ok
      "PageLocator sel_login_form" "[]" "WrapError ''timeout: Timeout 1000ms exceeded.'' ErrTimeout"]
    JiraLoginReaction_probe [of jira_login None "''admin''" "''s3cret''" page_closed
      "PageLocator sel_login_form" "[]" "ErrorString ''target closed''"]
  by (simp add: jira_login_def page_ok_def page_closed_def)

text \<open>
  When the banner is found, the Reaction fails with an error whose message contains the
  banner's text.
\<close>

lemma JiraLoginReaction_banner:
  assumes "CredentialsResolver s ctx = (username, password, None)"
    and "act e (SubLocator l sel_os_password) (Fill password) = None"
    and "act e (First (SubLocator l sel_os_username)) (Fill username) = None"
    and "RememberMe s \<longrightarrow> act e (SubLocator l sel_remember_me) (Check True) = None"
    and "act e (SubLocator l sel_login_button) Click = None"
    and "act e l WaitForHidden = None"
    and "InnerText e (PageLocator sel_login_error) 1000 = (loginErr, None)"
  shows "JiraLoginReaction s e ctx l = Some (ErrorString (''login error: '' @ loginErr))"
    and "Contains (Error (ErrorString (''login error: '' @ loginErr))) loginErr"
proof -
  show "JiraLoginReaction s e ctx l = Some (ErrorString (''login error: '' @ loginErr))"
    using JiraLoginReaction_reaches_probe [OF assms(1-6)] assms(7) by simp
  show "Contains (Error (ErrorString (''login error: '' @ loginErr))) loginErr"
    using Contains_append [of "''login error: ''" loginErr] by (simp only: Error.simps)
qed

section \<open>Properties of the secondary Atlassian session\<close>

lemma resolveAtlassianPage_stored:
  "onceValues st = Some r \<Longrightarrow> resolveAtlassianPage NewPage st = (r, st)"
  by (simp add: resolveAtlassianPage_def)

lemma resolveAtlassianPage_calls_stored:
  "onceValues st = Some r \<Longrightarrow> resolveAtlassianPage_calls NewPage n st = (replicate n r, st)"
  by (induction n) (simp_all add: resolveAtlassianPage_stored)

lemma resolveAtlassianPage_first:
  "onceValues st = None \<Longrightarrow> resolveAtlassianPage NewPage st = (r, st')
   \<Longrightarrow> onceValues st' = Some r \<and> newPageCalls st' = Suc (newPageCalls st)
       \<and> loginHandlers st' \<le> Suc (loginHandlers st)"
  by (auto simp: resolveAtlassianPage_def newAtlassianPage_def loginHandlers_def
        split: prod.splits option.splits)

text \<open>
  C8: in every sequence of calls of \<open>resolveAtlassianPage\<close>, each call returns the page
  and error that the first call returned, the page is created at most once and the login
  handler is registered at most once.
\<close>

theorem resolveAtlassianPage_once:
  "fst (resolveAtlassianPage_calls NewPage n session_init)
     = replicate n (fst (resolveAtlassianPage NewPage session_init))
   \<and> newPageCalls (snd (resolveAtlassianPage_calls NewPage n session_init)) \<le> 1
   \<and> loginHandlers (snd (resolveAtlassianPage_calls NewPage n session_init)) \<le> 1"
proof (cases n)
  case 0
  then show ?thesis by (simp add: session_init_def loginHandlers_def)
next
  case (Suc m)
  obtain r st' where first: "resolveAtlassianPage NewPage session_init = (r, st')"
    by (cases "resolveAtlassianPage NewPage session_init")
  have "onceValues session_init = None" by (simp add: session_init_def)
  from resolveAtlassianPage_first [OF this first]
  have st': "onceValues st' = Some r" "newPageCalls st' = 1" "loginHandlers st' \<le> 1"
    by (simp_all add: session_init_def loginHandlers_def)
  show ?thesis
    using Suc first st' resolveAtlassianPage_calls_stored [OF st'(1), of NewPage m]
    by simp
qed

theorem resolveAtlassianPage_once_witness:
  "fst (resolveAtlassianPage_calls pages_ok 3 session_init)
     = [(Some (Page 0), None), (Some (Page 0), None), (Some (Page 0), None)]
   \<and> newPageCalls (snd (resolveAtlassianPage_calls pages_ok 3 session_init)) \<le> 1
   \<and> loginHandlers (snd (resolveAtlassianPage_calls pages_ok 3 session_init)) \<le> 1"
  using resolveAtlassianPage_once [of pages_ok 3]
  by (simp add: resolveAtlassianPage_def newAtlassianPage_def session_init_def pages_ok_def
        numeral_3_eq_3)

section \<open>Properties of RunPageLocator\<close>

lemma watch_step_waiting:
  assumes "w_outer s = None" "w_state s = Blocked None" "l \<in> w_handlers s" "quiet cb l ev"
  shows "w_outer (watch_step cb l s ev) = None \<and> w_state (watch_step cb l s ev) = Blocked None
         \<and> l \<in> w_handlers (watch_step cb l s ev)"
  using assms
  by (cases ev) (simp_all add: quiet_def RunPageLocator_handler_def RunPageLocator_finish_def)

lemma foldl_watch_step_waiting:
  assumes "w_outer s = None" "w_state s = Blocked None" "l \<in> w_handlers s"
    "\<forall>ev\<in>set events. quiet cb l ev"
  shows "w_outer (foldl (watch_step cb l) s events) = None
         \<and> w_state (foldl (watch_step cb l) s events) = Blocked None
         \<and> l \<in> w_handlers (foldl (watch_step cb l) s events)"
  using assms
proof (induction events arbitrary: s)
  case Nil
  then show ?case by simp
next
  case (Cons ev events)
  have "quiet cb l ev" using Cons.prems(4) by simp
  from watch_step_waiting [OF Cons.prems(1-3) this] Cons.IH [of "watch_step cb l s ev"]
    Cons.prems(4)
  show ?case by simp
qed

lemma watch_step_returned_ok:
  assumes "returned_ok l s" "w_state s \<noteq> NotStarted"
  shows "returned_ok l (watch_step cb l s ev) \<and> w_state (watch_step cb l s ev) \<noteq> NotStarted"
  using assms
  by (cases ev; cases "w_state s")
     (auto simp: returned_ok_def RunPageLocator_handler_def RunPageLocator_finish_def
        RunPageLocator_parent_def ctx_Err_def split: option.splits wstate.splits)

lemma foldl_watch_step_returned_ok:
  assumes "returned_ok l s" "w_state s \<noteq> NotStarted"
  shows "returned_ok l (foldl (watch_step cb l) s events)
         \<and> w_state (foldl (watch_step cb l) s events) \<noteq> NotStarted"
  using assms
proof (induction events arbitrary: s)
  case Nil
  then show ?case by simp
next
  case (Cons ev events)
  from watch_step_returned_ok [OF Cons.prems] Cons.IH [of "watch_step cb l s ev"]
  show ?case by simp
qed

text \<open>
  C1, as the code has it: a Reaction that completes successfully does not end the wait.
  While every Reaction succeeds and the caller's context is not cancelled, a call whose
  handler was registered has not returned and its handler is still registered. Once
  the call has returned, the handler has been removed from the page and the value
  returned is a non-nil error, never \<open>nil\<close>.
\<close>

theorem RunPageLocator_success_keeps_waiting:
  "(ctx = None \<and> (\<forall>ev\<in>set events. quiet cb l ev) \<longrightarrow>
       returned (w_state (RunPageLocator ctx l cb None None hs events)) = None
       \<and> l \<in> w_handlers (RunPageLocator ctx l cb None None hs events))
   \<and> (\<forall>r. returned (w_state (RunPageLocator ctx l cb None None hs events)) = Some r \<longrightarrow>
       r \<noteq> None \<and> l \<notin> w_handlers (RunPageLocator ctx l cb None None hs events))"
proof (intro conjI impI allI)
  let ?init = "\<lparr>w_outer = ctx, w_state = Blocked (WithCancelCause ctx), w_handlers = insert l hs\<rparr>"
  let ?s = "foldl (watch_step cb l) ?init events"
  have R: "RunPageLocator ctx l cb None None hs events = watch_step cb l ?s Wake"
    by (simp add: RunPageLocator_def RunPageLocator_start_def)
  {
    assume a: "ctx = None \<and> (\<forall>ev\<in>set events. quiet cb l ev)"
    then have "w_outer ?s = None \<and> w_state ?s = Blocked None \<and> l \<in> w_handlers ?s"
      by (intro foldl_watch_step_waiting) (simp_all add: WithCancelCause_def propagate_def)
    then have "w_state (watch_step cb l ?s Wake) = Blocked None
               \<and> l \<in> w_handlers (watch_step cb l ?s Wake)"
      using watch_step_waiting [of ?s l cb Wake] by (simp add: quiet_def)
    then show "returned (w_state (RunPageLocator ctx l cb None None hs events)) = None"
      and "l \<in> w_handlers (RunPageLocator ctx l cb None None hs events)"
      by (simp_all add: R returned_def)
  }
  fix r
  assume b: "returned (w_state (RunPageLocator ctx l cb None None hs events)) = Some r"
  have "returned_ok l ?s \<and> w_state ?s \<noteq> NotStarted"
    by (intro foldl_watch_step_returned_ok) (simp_all add: returned_ok_def)
  then have "returned_ok l (watch_step cb l ?s Wake)"
    using watch_step_returned_ok by blast
  with b show "r \<noteq> None" and "l \<notin> w_handlers (RunPageLocator ctx l cb None None hs events)"
    by (auto simp: R returned_ok_def returned_def split: wstate.splits)
qed

lemmas sudo_scenario_defs = JiraSudoHandler_Run_def RunPageLocator_def RunPageLocator_start_def
  WithCancelCause_def propagate_def RunPageLocator_handler_def RunPageLocator_parent_def
  RunPageLocator_finish_def JiraSudoReaction_def returned_def cancel_def ctx_Err_def
  sudo_ok_def sudo_bad_def page_ok_def

theorem RunPageLocator_success_keeps_waiting_witness:
  "quiet (JiraSudoReaction sudo_ok) (PageLocator sel_sudo_form) (Fire page_ok)
   \<and> returned (w_state (JiraSudoHandler_Run sudo_ok None None None {} [Fire page_ok])) = None
   \<and> PageLocator sel_sudo_form
       \<in> w_handlers (JiraSudoHandler_Run sudo_ok None None None {} [Fire page_ok])
   \<and> returned (w_state (JiraSudoHandler_Run sudo_ok None None None {}
                           [Fire page_ok, CancelOuter None])) = Some (Some Canceled)
   \<and> PageLocator sel_sudo_form
       \<notin> w_handlers (JiraSudoHandler_Run sudo_ok None None None {}
                       [Fire page_ok, CancelOuter None])"
proof -
  have q: "quiet (JiraSudoReaction sudo_ok) (PageLocator sel_sudo_form) (Fire page_ok)"
    by (simp add: quiet_def sudo_scenario_defs)
  have r: "returned (w_state (JiraSudoHandler_Run sudo_ok None None None {}
                                [Fire page_ok, CancelOuter None])) = Some (Some Canceled)"
    by (simp add: sudo_scenario_defs)
  show ?thesis
    using q r
      RunPageLocator_success_keeps_waiting [of None "[Fire page_ok]"
        "JiraSudoReaction sudo_ok" "PageLocator sel_sudo_form" "{}"]
      RunPageLocator_success_keeps_waiting [of None "[Fire page_ok, CancelOuter None]"
        "JiraSudoReaction sudo_ok" "PageLocator sel_sudo_form" "{}"]
    by (simp add: JiraSudoHandler_Run_def)
qed

text \<open>
  C1 as stated fails: the step-up Reaction fills and submits the password successfully
  on its first trigger, and the call has not returned: it has not returned \<open>nil\<close>, and
  its handler is still registered.
\<close>

theorem RunPageLocator_success_not_returned:
  "JiraSudoReaction sudo_ok page_ok None (PageLocator sel_sudo_form) = None
   \<and> returned (w_state (JiraSudoHandler_Run sudo_ok None None None {} [Fire page_ok])) \<noteq> Some None
   \<and> PageLocator sel_sudo_form
       \<in> w_handlers (JiraSudoHandler_Run sudo_ok None None None {} [Fire page_ok])"
  by (simp add: sudo_scenario_defs)

text \<open>
  Cancelling with an error records it as the cause, where \<open>context.Cause\<close> finds it,
  while \<open>ctx.Err()\<close> is \<open>context.Canceled\<close>.
\<close>

lemma cancel_records_cause:
  "ctx_Cause (cancel (Some err) None) = Some err \<and> ctx_Err (cancel (Some err) None) = Some Canceled"
  by (simp add: cancel_def ctx_Cause_def ctx_Err_def)

text \<open>
  A Reaction that fails on the first trigger makes the call return \<open>context.Canceled\<close>,
  whatever error the Reaction returned and whatever happens afterwards: the error is
  recorded as the cause of the cancellation and the call returns \<open>ctx.Err()\<close>.
\<close>

lemma watch_step_failed:
  assumes "w_state s = Blocked (Some (Canceled, err)) \<or> w_state s = Returned (Some Canceled)"
  shows "w_state (watch_step cb l s ev) = Blocked (Some (Canceled, err))
         \<or> w_state (watch_step cb l s ev) = Returned (Some Canceled)"
  using assms
  by (cases ev)
     (auto simp: RunPageLocator_handler_def RunPageLocator_finish_def RunPageLocator_parent_def
        cancel_def propagate_def ctx_Err_def split: option.splits)

lemma foldl_watch_step_failed:
  assumes "w_state s = Blocked (Some (Canceled, err)) \<or> w_state s = Returned (Some Canceled)"
  shows "w_state (foldl (watch_step cb l) s events) = Blocked (Some (Canceled, err))
         \<or> w_state (foldl (watch_step cb l) s events) = Returned (Some Canceled)"
  using assms
proof (induction events arbitrary: s)
  case Nil
  then show ?case by simp
next
  case (Cons ev events)
  from watch_step_failed [OF Cons.prems] Cons.IH [of "watch_step cb l s ev"]
  show ?case by simp
qed

lemma RunPageLocator_reaction_error:
  assumes "cb e None l = Some err"
  shows "returned (w_state (RunPageLocator None l cb None None hs (Fire e # events)))
           = Some (Some Canceled)"
proof -
  let ?init = "\<lparr>w_outer = None, w_state = Blocked None, w_handlers = insert l hs\<rparr>"
  let ?s = "foldl (watch_step cb l) (watch_step cb l ?init (Fire e)) events"
  have R: "RunPageLocator None l cb None None hs (Fire e # events) = watch_step cb l ?s Wake"
    by (simp add: RunPageLocator_def RunPageLocator_start_def WithCancelCause_def propagate_def)
  have "w_state (watch_step cb l ?init (Fire e)) = Blocked (Some (Canceled, err))"
    using assms by (simp add: RunPageLocator_handler_def cancel_def)
  then have "w_state ?s = Blocked (Some (Canceled, err)) \<or> w_state ?s = Returned (Some Canceled)"
    by (intro foldl_watch_step_failed) simp
  then have "w_state (watch_step cb l ?s Wake) = Returned (Some Canceled)"
    by (auto simp: RunPageLocator_finish_def ctx_Err_def)
  then show ?thesis by (simp add: R returned_def)
qed

text \<open>
  C2: the step-up Reaction fails to resolve the password, with the error
  "no credentials specified", on its first trigger. The call returns
  \<open>context.Canceled\<close>, from which that error cannot be recovered.
\<close>

theorem RunPageLocator_swallows_reaction_error:
  "JiraSudoReaction sudo_bad page_ok None (PageLocator sel_sudo_form)
     = Some (ErrorString ''no credentials specified'')
   \<and> returned (w_state (JiraSudoHandler_Run sudo_bad None None None {} [Fire page_ok]))
     = Some (Some Canceled)
   \<and> \<not> errors_Is Canceled (ErrorString ''no credentials specified'')"
  by (simp add: sudo_scenario_defs)

text \<open>
  C5: when no Reaction triggers and the caller cancels the context, the call returns
  \<open>context.Canceled\<close>; when the Reaction fails, the call returns \<open>context.Canceled\<close> as
  well. The caller gets the same value for the external cancellation and for the local
  failure.
\<close>

theorem RunPageLocator_cancellation_indistinguishable:
  "returned (w_state (JiraSudoHandler_Run sudo_ok None None None {} [CancelOuter None]))
     = Some (Some Canceled)
   \<and> returned (w_state (JiraSudoHandler_Run sudo_bad None None None {} [Fire page_ok]))
     = Some (Some Canceled)"
  by (simp add: sudo_scenario_defs)

section \<open>Properties of the groups of watchers\<close>

lemma RunPageLocator_parent_Returned [simp]:
  "RunPageLocator_parent c w = Returned r \<longleftrightarrow> w = Returned r"
  by (cases w) (simp_all add: RunPageLocator_parent_def)

lemma Returned_RunPageLocator_parent [simp]:
  "Returned r = RunPageLocator_parent c w \<longleftrightarrow> w = Returned r"
  by (cases w) (auto simp: RunPageLocator_parent_def)

lemma Returned_in_parents [simp]:
  "Returned r \<in> set (map (RunPageLocator_parent c) xs) \<longleftrightarrow> Returned r \<in> set xs"
  by (induction xs) auto

lemma in_set_update: "x \<in> set (xs[i := y]) \<Longrightarrow> x = y \<or> x \<in> set xs"
  using set_update_subset_insert [of xs i y] by auto

lemma errs_kept_parent:
  "errs_kept g \<Longrightarrow> g_err g' = g_err g \<Longrightarrow> g_workers g' = map (RunPageLocator_parent c) (g_workers g)
   \<Longrightarrow> errs_kept g'"
  using Returned_in_parents [of _ c "g_workers g"] by (simp add: errs_kept_def del: set_map)

lemma errs_kept_Go_done:
  assumes "errs_kept g" "\<forall>r. w' = Returned r \<longrightarrow> r \<noteq> None"
  shows "errs_kept (Group_Go_done w' (g\<lparr>g_handlers := hs', g_workers := (g_workers g)[i := w']\<rparr>))"
proof -
  let ?g = "g\<lparr>g_handlers := hs', g_workers := (g_workers g)[i := w']\<rparr>"
  have mem: "r0 \<noteq> None \<and> (g_err g \<noteq> None \<or> Returned r0 = w')"
    if "Returned r0 \<in> set ((g_workers g)[i := w'])" for r0
    using in_set_update [OF that] assms by (auto simp: errs_kept_def)
  show ?thesis
  proof (cases w')
    case (Returned r)
    then obtain err where r: "r = Some err" using assms(2) by auto
    show ?thesis
    proof (cases "g_err g = None")
      case True
      then show ?thesis using Returned r mem
        by (simp add: Group_Go_done_def Group_done_def errs_kept_def del: set_map)
    next
      case False
      then show ?thesis using Returned r mem
        by (auto simp: Group_Go_done_def Group_done_def errs_kept_def)
    qed
  next
    case NotStarted
    then show ?thesis using mem by (auto simp: Group_Go_done_def errs_kept_def)
  next
    case (Blocked c)
    then show ?thesis using mem by (auto simp: Group_Go_done_def errs_kept_def)
  qed
qed

lemma Returned_RunPageLocator_handler [simp]:
  "Returned r = RunPageLocator_handler cb l e hs w \<longleftrightarrow> w = Returned r"
  by (cases w) (auto simp: RunPageLocator_handler_def split: option.splits)

lemma RunPageLocator_handler_Returned [simp]:
  "RunPageLocator_handler cb l e hs w = Returned r \<longleftrightarrow> w = Returned r"
  by (cases w) (auto simp: RunPageLocator_handler_def split: option.splits)

lemma group_step_errs_kept:
  assumes "errs_kept g"
  shows "errs_kept (group_step ws reg g ev)"
proof (cases ev)
  case (GStart i)
  show ?thesis
  proof (cases "i < length ws \<and> i < length (g_workers g) \<and> g_workers g ! i = NotStarted")
    case True
    obtain w' hs' where st: "RunPageLocator_start (g_ctx g) (fst (ws ! i)) (fst (reg i)) (snd (reg i)) (g_handlers g) = (w', hs')"
      by (cases "RunPageLocator_start (g_ctx g) (fst (ws ! i)) (fst (reg i)) (snd (reg i)) (g_handlers g)")
    then have "\<forall>r. w' = Returned r \<longrightarrow> r \<noteq> None"
      by (auto simp: RunPageLocator_start_def split: option.splits)
    from errs_kept_Go_done [OF assms this] show ?thesis
      using GStart True st by simp
  next
    case False
    then show ?thesis using GStart assms by auto
  qed
next
  case (GFire i e)
  show ?thesis
  proof (cases "i < length ws \<and> i < length (g_workers g)")
    case True
    let ?w = "RunPageLocator_handler (snd (ws ! i)) (fst (ws ! i)) e (g_handlers g) (g_workers g ! i)"
    have "r \<noteq> None \<and> g_err g \<noteq> None" if "Returned r \<in> set ((g_workers g)[i := ?w])" for r
    proof -
      from in_set_update [OF that] have "g_workers g ! i = Returned r \<or> Returned r \<in> set (g_workers g)"
        by auto
      then have "Returned r \<in> set (g_workers g)" using True by (auto simp: in_set_conv_nth)
      then show ?thesis using assms by (simp add: errs_kept_def)
    qed
    then show ?thesis using GFire True by (simp add: errs_kept_def)
  next
    case False
    then show ?thesis using GFire assms by auto
  qed
next
  case (GWake i)
  show ?thesis
  proof (cases "i < length ws \<and> i < length (g_workers g)")
    case True
    show ?thesis
    proof (cases "g_workers g ! i")
      case (Blocked c)
      show ?thesis
      proof (cases c)
        case None
        then show ?thesis using GWake True Blocked assms by simp
      next
        case (Some d)
        have "\<forall>r. Returned (ctx_Err (Some d)) = Returned r \<longrightarrow> r \<noteq> None"
          by (simp add: ctx_Err_def)
        from errs_kept_Go_done [OF assms this]
        show ?thesis using GWake True Blocked Some
          by (simp add: RunPageLocator_finish_def)
      qed
    qed (use GWake True assms in simp_all)
  next
    case False
    then show ?thesis using GWake assms by auto
  qed
next
  case (GCancelOuter cause)
  then show ?thesis using assms
    by (auto simp: outer_done_def intro: errs_kept_parent)
next
  case GDeadlineOuter
  then show ?thesis using assms
    by (auto simp: outer_done_def intro: errs_kept_parent)
qed

lemma Group_done_length [simp]: "length (g_workers (Group_done r g)) = length (g_workers g)"
  by (cases r) (simp_all add: Group_done_def)

lemma Group_Go_done_length [simp]: "length (g_workers (Group_Go_done w g)) = length (g_workers g)"
  by (cases w) (simp_all add: Group_Go_done_def)

lemma group_step_length [simp]:
  "length (g_workers (group_step ws reg g ev)) = length (g_workers g)"
  by (cases ev) (auto simp: outer_done_def split: prod.splits wstate.splits option.splits)

lemma foldl_group_step_length [simp]:
  "length (g_workers (foldl (group_step ws reg) g events)) = length (g_workers g)"
  by (induction events arbitrary: g) simp_all

lemma foldl_group_step_errs_kept:
  "errs_kept g \<Longrightarrow> errs_kept (foldl (group_step ws reg) g events)"
  by (induction events arbitrary: g) (simp_all add: group_step_errs_kept)

lemma group_step_all_waiting:
  assumes "all_waiting g" "\<forall>i<length ws. reg i = (None, None)" "succeeds ws ev"
  shows "all_waiting (group_step ws reg g ev)"
proof (cases ev)
  case (GStart i)
  show ?thesis
  proof (cases "i < length ws \<and> i < length (g_workers g) \<and> g_workers g ! i = NotStarted")
    case True
    then have "reg i = (None, None)" using assms(2) by simp
    then have "group_step ws reg g ev =
        g\<lparr>g_handlers := insert (fst (ws ! i)) (g_handlers g),
          g_workers := (g_workers g)[i := Blocked None]\<rparr>"
      using GStart True assms(1)
      by (simp add: all_waiting_def RunPageLocator_start_def WithCancelCause_def propagate_def
            Group_Go_done_def)
    then show ?thesis using assms(1)
      by (auto simp: all_waiting_def dest: in_set_update)
  next
    case False
    then show ?thesis using GStart assms(1) by auto
  qed
next
  case (GFire i e)
  show ?thesis
  proof (cases "i < length ws \<and> i < length (g_workers g)")
    case True
    then have "g_workers g ! i = NotStarted \<or> g_workers g ! i = Blocked None"
      using assms(1) by (simp add: all_waiting_def)
    moreover have "snd (ws ! i) e None (fst (ws ! i)) = None"
      using assms(3) GFire True by (simp add: succeeds_def)
    ultimately have
      "RunPageLocator_handler (snd (ws ! i)) (fst (ws ! i)) e (g_handlers g) (g_workers g ! i)
         = g_workers g ! i"
      by (auto simp: RunPageLocator_handler_def)
    then show ?thesis using GFire True assms(1) by simp
  next
    case False
    then show ?thesis using GFire assms(1) by auto
  qed
next
  case (GWake i)
  show ?thesis
  proof (cases "i < length ws \<and> i < length (g_workers g)")
    case True
    then have "g_workers g ! i = NotStarted \<or> g_workers g ! i = Blocked None"
      using assms(1) by (simp add: all_waiting_def)
    then show ?thesis using GWake True assms(1) by auto
  next
    case False
    then show ?thesis using GWake assms(1) by auto
  qed
qed (use assms in \<open>simp_all add: succeeds_def\<close>)

lemma foldl_group_step_all_waiting:
  assumes "all_waiting g" "\<forall>i<length ws. reg i = (None, None)" "\<forall>ev\<in>set events. succeeds ws ev"
  shows "all_waiting (foldl (group_step ws reg) g events)"
  using assms
proof (induction events arbitrary: g)
  case Nil
  then show ?case by simp
next
  case (Cons ev events)
  from Cons.prems have "all_waiting (group_step ws reg g ev)"
    by (intro group_step_all_waiting) simp_all
  with Cons show ?case by simp
qed

lemma succeeds_settle: "\<forall>ev\<in>set (settle k). succeeds ws ev"
  by (auto simp: settle_def succeeds_def)

text \<open>
  C3, as the code has it: for a group of at least one watcher, while every Reaction
  that runs completes successfully, in any order or interleaving, every handler is
  registered and the caller's context is not cancelled, the group's \<open>Run\<close> call has not
  returned; and \<open>Run\<close> never returns \<open>nil\<close>: what it returns is a non-nil error.
\<close>

theorem Group_Run_success_keeps_waiting:
  assumes "ws \<noteq> []"
  shows "(ctx = None \<and> (\<forall>i<length ws. reg i = (None, None)) \<and> (\<forall>ev\<in>set events. succeeds ws ev)
            \<longrightarrow> Group_Wait (Group_Run ws reg ctx hs events) = None)
         \<and> Group_Wait (Group_Run ws reg ctx hs events) \<noteq> Some None"
proof (intro conjI impI)
  let ?init = "\<lparr>g_outer = ctx, g_ctx = WithCancelCause ctx, g_err = None, g_handlers = hs,
              g_workers = replicate (length ws) NotStarted\<rparr>"
  let ?g = "Group_Run ws reg ctx hs events"
  have len: "length (g_workers ?g) = length ws"
    by (simp add: Group_Run_def)
  then obtain w where w: "w \<in> set (g_workers ?g)"
    using assms by (metis length_greater_0_conv nth_mem)
  {
    assume a: "ctx = None \<and> (\<forall>i<length ws. reg i = (None, None)) \<and> (\<forall>ev\<in>set events. succeeds ws ev)"
    have "all_waiting ?init"
      using a by (simp add: all_waiting_def WithCancelCause_def propagate_def)
    moreover have "\<forall>i<length ws. reg i = (None, None)" using a by simp
    moreover have "\<forall>ev\<in>set (events @ settle (length ws)). succeeds ws ev"
      using a succeeds_settle by auto
    ultimately have "all_waiting (foldl (group_step ws reg) ?init (events @ settle (length ws)))"
      by (rule foldl_group_step_all_waiting)
    then have "all_waiting ?g" by (simp add: Group_Run_def)
    then have "returned w = None"
      using w by (auto simp: all_waiting_def returned_def)
    then show "Group_Wait ?g = None"
      using w by (auto simp: Group_Wait_def list_all_iff)
  }
  have "errs_kept ?init" by (simp add: errs_kept_def)
  then have "errs_kept ?g"
    unfolding Group_Run_def by (rule foldl_group_step_errs_kept)
  then show "Group_Wait ?g \<noteq> Some None"
    using w by (cases w) (auto simp: Group_Wait_def errs_kept_def list_all_iff returned_def)
qed

theorem Group_Run_success_keeps_waiting_witness:
  "AtlassianLoginHandler_watchers atlassian_ok \<noteq> []
   \<and> list_all (succeeds (AtlassianLoginHandler_watchers atlassian_ok))
        [GStart 0, GStart 1, GStart 2, GStart 3,
         GFire 3 page_ok, GFire 1 page_ok, GFire 2 page_ok, GFire 0 page_ok]
   \<and> AtlassianLoginHandler_Run atlassian_ok reg_ok None {}
        [GStart 0, GStart 1, GStart 2, GStart 3,
         GFire 3 page_ok, GFire 1 page_ok, GFire 2 page_ok, GFire 0 page_ok] = None
   \<and> AtlassianLoginHandler_Run atlassian_ok reg_ok None {}
        [GStart 0, GStart 1, GStart 2, GStart 3,
         GFire 3 page_ok, GFire 1 page_ok, GFire 2 page_ok, GFire 0 page_ok,
         GCancelOuter None] = Some (Some Canceled)"
proof -
  let ?ws = "AtlassianLoginHandler_watchers atlassian_ok"
  let ?events = "[GStart 0, GStart 1, GStart 2, GStart 3,
                  GFire 3 page_ok, GFire 1 page_ok, GFire 2 page_ok, GFire 0 page_ok]"
  have ws: "?ws \<noteq> []"
    by (simp add: AtlassianLoginHandler_watchers_def)
  have ev: "list_all (succeeds ?ws) ?events"
    by code_simp
  have "Group_Wait (Group_Run ?ws reg_ok None {} ?events) = None"
    using Group_Run_success_keeps_waiting [OF ws, of None reg_ok ?events "{}"] ev
    by (simp add: reg_ok_def list_all_iff)
  moreover have "AtlassianLoginHandler_Run atlassian_ok reg_ok None {}
        [GStart 0, GStart 1, GStart 2, GStart 3,
         GFire 3 page_ok, GFire 1 page_ok, GFire 2 page_ok, GFire 0 page_ok,
         GCancelOuter None] = Some (Some Canceled)"
    by code_simp
  ultimately show ?thesis
    using ws ev by (simp add: AtlassianLoginHandler_Run_def)
qed

text \<open>
  C3 as stated fails: the four Atlassian Reactions complete successfully, in the order
  skip, password, one-time code, username, and the group's \<open>Run\<close> call has not returned.
\<close>

theorem AtlassianLoginHandler_Run_success_not_returned:
  "AtlassianUsernameReaction atlassian_ok page_ok None (PageLocator sel_form_username) = None
   \<and> AtlassianPasswordReaction atlassian_ok page_ok None (PageLocator sel_form_password) = None
   \<and> AtlassianOTPReaction atlassian_ok page_ok None (PageLocator sel_otp_input) = None
   \<and> AtlassianSkipReaction atlassian_ok page_ok None (PageLocator sel_skip_otp) = None
   \<and> AtlassianLoginHandler_Run atlassian_ok reg_ok None {}
        [GStart 0, GStart 1, GStart 2, GStart 3,
         GFire 3 page_ok, GFire 1 page_ok, GFire 2 page_ok, GFire 0 page_ok] \<noteq> Some None"
  by code_simp

text \<open>
  C4: the username, one-time-code and skip Reactions of the Atlassian group complete
  successfully, then the password Reaction fails with the error
  "no credentials specified". The group's \<open>Run\<close> call returns \<open>context.Canceled\<close>, from
  which that error cannot be recovered.
\<close>

theorem AtlassianLoginHandler_Run_swallows_reaction_error:
  "AtlassianUsernameReaction atlassian_bad page_ok None (PageLocator sel_form_username) = None
   \<and> AtlassianPasswordReaction atlassian_bad page_ok None (PageLocator sel_form_password)
       = Some (ErrorString ''no credentials specified'')
   \<and> AtlassianOTPReaction atlassian_bad page_ok None (PageLocator sel_otp_input) = None
   \<and> AtlassianSkipReaction atlassian_bad page_ok None (PageLocator sel_skip_otp) = None
   \<and> AtlassianLoginHandler_Run atlassian_bad reg_ok None {}
        [GStart 0, GStart 1, GStart 2, GStart 3,
         GFire 0 page_ok, GFire 2 page_ok, GFire 3 page_ok, GFire 1 page_ok]
       = Some (Some Canceled)
   \<and> \<not> errors_Is Canceled (ErrorString ''no credentials specified'')"
  by code_simp

text \<open>
  C7: the form is filled and submitted successfully and the error banner shows
  "Invalid username or password". The login Reaction fails with an error whose message
  contains that text, and the group's \<open>Run\<close> call returns \<open>context.Canceled\<close>, whose
  message does not contain it.
\<close>

theorem JiraLoginHandler_Run_swallows_login_error:
  "JiraLoginReaction jira_login page_banner None (PageLocator sel_login_form)
     = Some (ErrorString ''login error: Invalid username or password'')
   \<and> Contains (Error (ErrorString ''login error: Invalid username or password''))
        ''Invalid username or password''
   \<and> JiraLoginHandler_Run jira_login reg_ok None {} [GStart 0, GFire 0 page_banner]
       = Some (Some Canceled)
   \<and> \<not> Contains (Error Canceled) ''Invalid username or password''"
  by code_simp

end
